theory Spec2Isabelle
  imports Complex_Main
begin

section \<open>Data model of the dashboard (src/components/ksebl-dashboard.tsx)\<close>

text \<open>
  \<^verbatim>\<open>type LineStatus = "Healthy" | "Fault" | "Shutoff"\<close>: a union of three string
  literals. The datatype is the union, \<open>status_text\<close> is the string each member is.
\<close>

datatype LineStatus = Healthy | Fault | Shutoff

fun status_text :: "LineStatus \<Rightarrow> string" where
  "status_text Healthy = ''Healthy''"
| "status_text Fault = ''Fault''"
| "status_text Shutoff = ''Shutoff''"

text \<open>
  \<^verbatim>\<open>type LTLine = { id; name; coords: [number, number][]; status }\<close>. The field
  \<open>id\<close> is written \<open>id_l\<close> (HOL has a constant \<open>id\<close>). Coordinates are only carried
  around by the operations modelled here; they are pairs of rationals.
\<close>

record LTLine =
  id_l :: string
  name :: string
  coords :: "(rat \<times> rat) list"
  status :: LineStatus

text \<open>
  \<^verbatim>\<open>type NotificationItem = { id; ts; lineId; message; status }\<close>, with \<open>id\<close> and
  \<open>status\<close> written \<open>id_n\<close> and \<open>status_n\<close>.
\<close>

record NotificationItem =
  id_n :: string
  ts :: int
  lineId :: string
  message :: string
  status_n :: LineStatus

text \<open>The two \<^verbatim>\<open>useState\<close> cells of the component that the handlers below write.\<close>

record Dashboard =
  lines :: "LTLine list"
  notifications :: "NotificationItem list"

definition initialLines :: "LTLine list" where
  "initialLines =
    [\<lparr>id_l = ''lt-1'', name = ''LT Line - Trivandrum North'',
      coords = [(8508 / 1000, 76956 / 1000), (8545 / 1000, 7698 / 100), (858 / 100, 7699 / 100)],
      status = Healthy\<rparr>,
     \<lparr>id_l = ''lt-2'', name = ''LT Line - Kochi Coastal'',
      coords = [(994 / 100, 7627 / 100), (997 / 100, 7631 / 100), (1002 / 100, 7632 / 100),
                (1006 / 100, 7634 / 100)],
      status = Healthy\<rparr>,
     \<lparr>id_l = ''lt-3'', name = ''LT Line - Kozhikode Rural'',
      coords = [(1124 / 100, 7577 / 100), (1128 / 100, 758 / 10), (1131 / 100, 7583 / 100)],
      status = Shutoff\<rparr>]"

definition initialDashboard :: Dashboard where
  "initialDashboard = \<lparr>lines = initialLines, notifications = []\<rparr>"

section \<open>JavaScript numbers\<close>

text \<open>
  A JavaScript number is an IEEE 754 double. The finite doubles are rationals, and an
  arithmetic operation returns the exact result rounded to the nearest double, ties to the
  even significand. \<open>fl\<close> is that rounding for the normal range
  (\<open>2 ^ -1022 \<le> \<bar>q\<bar> < 2 ^ 1024\<close>), where a double has 53 significant bits; the
  report's numbers (at most \<open>99.5\<close> times a line count) lie in it.
  \<open>ilog2 q\<close> is the exponent \<open>e\<close> with \<open>2 ^ e \<le> q < 2 ^ (e + 1)\<close>, found from
  the bit lengths of numerator and denominator.
\<close>

definition pow2 :: "int \<Rightarrow> rat" where
  "pow2 k = (if 0 \<le> k then 2 ^ nat k else 1 / 2 ^ nat (- k))"

fun bit_len :: "nat \<Rightarrow> nat" where
  "bit_len n = (if n = 0 then 0 else Suc (bit_len (n div 2)))"

declare bit_len.simps [simp del]

definition ilog2 :: "rat \<Rightarrow> int" where
  "ilog2 q =
     (let (p, d) = quotient_of q;
          k = int (bit_len (nat p)) - int (bit_len (nat d))
      in if pow2 k \<le> q then k else k - 1)"

definition roundTiesToEven :: "rat \<Rightarrow> int" where
  "roundTiesToEven m =
     (let f = \<lfloor>m\<rfloor>; r = m - of_int f
      in if r < 1 / 2 then f else if 1 / 2 < r then f + 1 else if even f then f else f + 1)"

definition fl :: "rat \<Rightarrow> rat" where
  "fl q =
     (if q = 0 then 0
      else let u = pow2 (ilog2 \<bar>q\<bar> - 52)
           in sgn q * of_int (roundTiesToEven (\<bar>q\<bar> / u)) * u)"

definition js_mul :: "rat \<Rightarrow> rat \<Rightarrow> rat" where
  "js_mul a b = fl (a * b)"

definition js_add :: "rat \<Rightarrow> rat \<Rightarrow> rat" where
  "js_add a b = fl (a + b)"

text \<open>Division by a number that is not zero (the report divides by \<open>total\<close>, at least 1).\<close>

definition js_div :: "rat \<Rightarrow> rat \<Rightarrow> rat" where
  "js_div a b = fl (a / b)"

text \<open>
  \<^verbatim>\<open>Number.prototype.toFixed(1)\<close> (ECMAScript, for \<open>\<bar>x\<bar> < 10 ^ 21\<close>): a sign for
  a negative \<open>x\<close>; \<open>n\<close> the integer for which \<open>n / 10 - \<bar>x\<bar>\<close> is closest to zero, the
  larger one if there are two; the decimal digits of \<open>n\<close>, padded with zeros on the left
  to two digits, with a point before the last digit.
\<close>

fun digits :: "nat \<Rightarrow> string" where
  "digits n =
     (if n < 10 then [''0123456789'' ! n]
      else digits (n div 10) @ [''0123456789'' ! (n mod 10)])"

declare digits.simps [simp del]

definition toFixed1_n :: "rat \<Rightarrow> nat" where
  "toFixed1_n x = nat \<lfloor>10 * \<bar>x\<bar> + 1 / 2\<rfloor>"

definition toFixed1 :: "rat \<Rightarrow> string" where
  "toFixed1 x =
     (let s = (if x < 0 then ''-'' else []);
          m = digits (toFixed1_n x);
          m = (if length m \<le> 1 then replicate (2 - length m) CHR ''0'' @ m else m)
      in s @ take (length m - 1) m @ ''.'' @ drop (length m - 1) m)"

section \<open>Notification log\<close>

text \<open>
  \<^verbatim>\<open>setNotifications((prev) => [{ id: `${now()}-${Math.random()}`, ts: now(), lineId,
  message, status }, ...prev].slice(0, 20))\<close>.
  The clock and the random source are inputs: \<open>nid\<close> is the identifier string built from
  them and \<open>t\<close> the time stamp. \<open>addNotification_upd\<close> is the updater applied to the
  previous list, \<open>addNotification\<close> its effect on the state.
\<close>

definition addNotification_upd ::
  "string \<Rightarrow> int \<Rightarrow> string \<Rightarrow> string \<Rightarrow> LineStatus \<Rightarrow> NotificationItem list \<Rightarrow> NotificationItem list"
where
  "addNotification_upd nid t lid msg st prev =
     take 20 (\<lparr>id_n = nid, ts = t, lineId = lid, message = msg, status_n = st\<rparr> # prev)"

definition addNotification ::
  "string \<Rightarrow> int \<Rightarrow> string \<Rightarrow> string \<Rightarrow> LineStatus \<Rightarrow> Dashboard \<Rightarrow> Dashboard"
where
  "addNotification nid t lid msg st s =
     s\<lparr>notifications := addNotification_upd nid t lid msg st (notifications s)\<rparr>"

text \<open>One call of \<open>addNotification\<close>: the identifier, time stamp and the three arguments.\<close>

type_synonym note_call = "string \<times> int \<times> string \<times> string \<times> LineStatus"

fun addNotification_call :: "note_call \<Rightarrow> NotificationItem list \<Rightarrow> NotificationItem list" where
  "addNotification_call (nid, t, lid, msg, st) prev = addNotification_upd nid t lid msg st prev"

text \<open>A sequence of calls, the first element of the list being the first call.\<close>

fun addNotifications :: "note_call list \<Rightarrow> NotificationItem list \<Rightarrow> NotificationItem list" where
  "addNotifications [] prev = prev"
| "addNotifications (c # cs) prev = addNotifications cs (addNotification_call c prev)"

text \<open>The Clear All button: \<^verbatim>\<open>onClick={() => setNotifications([])}\<close>.\<close>

definition clearAll :: "Dashboard \<Rightarrow> Dashboard" where
  "clearAll s = s\<lparr>notifications := []\<rparr>"

section \<open>Status controller\<close>

text \<open>
  \<^verbatim>\<open>const lineName = lines.find((l) => l.id === lineId)?.name ?? "Line"\<close>
  \<^verbatim>\<open>setLines((prev) => prev.map((l) => (l.id === lineId ? { ...l, status } : l)))\<close>
  \<^verbatim>\<open>addNotification(lineId, `${lineName} status changed to ${status}`, status)\<close>
  A handler runs once per event on the state of the last render, so the \<open>lines\<close> it
  closes over and the \<open>prev\<close> its updater receives are the same list.
\<close>

definition lineName_of :: "LTLine list \<Rightarrow> string \<Rightarrow> string" where
  "lineName_of ls lid = (case find (\<lambda>l. id_l l = lid) ls of Some l \<Rightarrow> name l | None \<Rightarrow> ''Line'')"

definition setLines_status :: "string \<Rightarrow> LineStatus \<Rightarrow> LTLine list \<Rightarrow> LTLine list" where
  "setLines_status lid st prev = map (\<lambda>l. if id_l l = lid then l\<lparr>status := st\<rparr> else l) prev"

definition updateLineStatus :: "string \<Rightarrow> int \<Rightarrow> string \<Rightarrow> LineStatus \<Rightarrow> Dashboard \<Rightarrow> Dashboard" where
  "updateLineStatus nid t lid st s =
     (let lineName = lineName_of (lines s) lid in
      addNotification nid t lid (lineName @ '' status changed to '' @ status_text st) st
        (s\<lparr>lines := setLines_status lid st (lines s)\<rparr>))"

text \<open>
  \<^verbatim>\<open>const candidates = lines.filter((l) => l.status !== "Fault")\<close>
  \<^verbatim>\<open>const pick = candidates[Math.floor(Math.random() * candidates.length)]\<close>
  \<^verbatim>\<open>if (pick) updateLineStatus(pick.id, "Fault")\<close>
  \<open>r\<close> is the value \<^verbatim>\<open>Math.random()\<close> returns, a double of \<open>[0, 1)\<close>, so at most
  \<open>1 - 2 ^ -53\<close>; the product is a double too. An index outside the array reads
  \<^verbatim>\<open>undefined\<close>, which is falsy, so nothing happens then.
\<close>

definition pick_candidate :: "rat \<Rightarrow> LTLine list \<Rightarrow> LTLine option" where
  "pick_candidate r candidates =
     (let k = \<lfloor>js_mul r (of_nat (length candidates))\<rfloor> in
      if 0 \<le> k \<and> k < int (length candidates) then Some (candidates ! nat k) else None)"

definition simulateFault :: "rat \<Rightarrow> string \<Rightarrow> int \<Rightarrow> Dashboard \<Rightarrow> Dashboard" where
  "simulateFault r nid t s =
     (let candidates = filter (\<lambda>l. status l \<noteq> Fault) (lines s) in
      case pick_candidate r candidates of
        Some pick \<Rightarrow> updateLineStatus nid t (id_l pick) Fault s
      | None \<Rightarrow> s)"

section \<open>Report aggregator\<close>

text \<open>
  \<^verbatim>\<open>const counts = { Healthy: 0, Fault: 0, Shutoff: 0 }\<close>
  \<^verbatim>\<open>for (const l of lines) counts[l.status]++\<close>
  \<^verbatim>\<open>const total = lines.length || 1\<close>
  \<^verbatim>\<open>const uptime = ((counts.Healthy * 99.5 + counts.Fault * 70) / total).toFixed(1)\<close>
  \<^verbatim>\<open>return { counts, total, uptime }\<close>
\<close>

record Report =
  counts :: "LineStatus \<Rightarrow> nat"
  total :: nat
  uptime :: string

definition incr :: "(LineStatus \<Rightarrow> nat) \<Rightarrow> LineStatus \<Rightarrow> LineStatus \<Rightarrow> nat" where
  "incr c st = c(st := c st + 1)"

definition count_lines :: "LTLine list \<Rightarrow> LineStatus \<Rightarrow> nat" where
  "count_lines ls = fold (\<lambda>l c. incr c (status l)) ls (\<lambda>_. 0)"

definition uptime_number :: "(LineStatus \<Rightarrow> nat) \<Rightarrow> nat \<Rightarrow> rat" where
  "uptime_number c n =
     js_div (js_add (js_mul (of_nat (c Healthy)) (995 / 10)) (js_mul (of_nat (c Fault)) 70))
            (of_nat n)"

definition report :: "LTLine list \<Rightarrow> Report" where
  "report ls =
     (let c = count_lines ls;
          n = (if length ls = 0 then 1 else length ls)
      in \<lparr>counts = c, total = n, uptime = toFixed1 (uptime_number c n)\<rparr>)"

text \<open>
  The formula as the specification words it, on exact rationals: the weighted sum of the
  Healthy and Fault counts over the number of lines. For an empty list the quotient has no
  value (HOL's is 0); it is used for non-empty lists only.
\<close>

definition spec_uptime_exact :: "LTLine list \<Rightarrow> rat" where
  "spec_uptime_exact ls =
     (of_nat (length (filter (\<lambda>l. status l = Healthy) ls)) * (995 / 10)
      + of_nat (length (filter (\<lambda>l. status l = Fault) ls)) * 70) / of_nat (length ls)"

text \<open>
  Rounding a non-negative exact value to tenths, to the nearest, with the three usual
  conventions for a value halfway between two tenths: up, down, to the even tenth. The
  result is the number of tenths.
\<close>

datatype tie_rule = HalfUp | HalfDown | HalfEven

definition spec_round_tenths :: "tie_rule \<Rightarrow> rat \<Rightarrow> int" where
  "spec_round_tenths rule v =
     (let f = \<lfloor>10 * v\<rfloor>; r = 10 * v - of_int f
      in if r < 1 / 2 then f else if 1 / 2 < r then f + 1
         else (case rule of HalfUp \<Rightarrow> f + 1 | HalfDown \<Rightarrow> f
               | HalfEven \<Rightarrow> (if even f then f else f + 1)))"

text \<open>
  The displayed text the specification's sentence gives under a tie rule: the rounded
  number of tenths, written with one decimal.
\<close>

definition spec_uptime :: "tie_rule \<Rightarrow> LTLine list \<Rightarrow> string" where
  "spec_uptime rule ls =
     (let n = nat (spec_round_tenths rule (spec_uptime_exact ls))
      in digits (n div 10) @ ''.'' @ digits (n mod 10))"

text \<open>Two registries used as examples: one Healthy line with nine or with one Shutoff line.\<close>

definition ten_lines :: "LTLine list" where
  "ten_lines =
     \<lparr>id_l = ''lt-1'', name = ''LT Line 1'', coords = [(10, 76)], status = Healthy\<rparr>
     # map (\<lambda>i. \<lparr>id_l = ''lt-'' @ digits i, name = ''LT Line '' @ digits i,
                  coords = [(10, 76)], status = Shutoff\<rparr>) [2..<11]"

definition two_lines :: "LTLine list" where
  "two_lines =
     [\<lparr>id_l = ''lt-1'', name = ''LT Line 1'', coords = [(10, 76)], status = Healthy\<rparr>,
      \<lparr>id_l = ''lt-2'', name = ''LT Line 2'', coords = [(10, 76)], status = Shutoff\<rparr>]"

section \<open>CSV exporter\<close>

text \<open>
  \<^verbatim>\<open>const headers = ["Line ID", "Name", "Status"]\<close>
  \<^verbatim>\<open>const rows = lines.map((l) => [l.id, l.name, l.status])\<close>
  \<^verbatim>\<open>const csv = [headers, ...rows].map((r) => r.map((c) => `"${c}"`).join(",")).join("\n")\<close>
  \<^verbatim>\<open>a.download = `ksebl-lt-report-${new Date().toISOString().slice(0, 10)}.csv`\<close>
  \<open>join\<close> is \<^verbatim>\<open>Array.prototype.join\<close>. The download is the pair of the file name
  and the text; \<open>iso_date\<close> is the string \<^verbatim>\<open>new Date().toISOString()\<close> returns.
\<close>

fun join :: "string \<Rightarrow> string list \<Rightarrow> string" where
  "join sep [] = []"
| "join sep [x] = x"
| "join sep (x # y # ys) = x @ sep @ join sep (y # ys)"

definition quote_field :: "string \<Rightarrow> string" where
  "quote_field c = [CHR 0x22] @ c @ [CHR 0x22]"

definition downloadCSV :: "string \<Rightarrow> LTLine list \<Rightarrow> string \<times> string" where
  "downloadCSV iso_date ls =
     (let headers = [''Line ID'', ''Name'', ''Status''];
          rows = map (\<lambda>l. [id_l l, name l, status_text (status l)]) ls;
          csv = join [CHR 0x0A] (map (\<lambda>r. join '','' (map quote_field r)) (headers # rows))
      in (''ksebl-lt-report-'' @ take 10 iso_date @ ''.csv'', csv))"

text \<open>
  Reading the text back: \<open>split_on c s\<close> cuts \<open>s\<close> at every \<open>c\<close>, as
  \<^verbatim>\<open>String.prototype.split\<close> does; it counts the rows of the exported text.
\<close>

fun split_on :: "char \<Rightarrow> string \<Rightarrow> string list" where
  "split_on c [] = [[]]"
| "split_on c (x # xs) =
     (if x = c then [] # split_on c xs
      else (case split_on c xs of w # ws \<Rightarrow> (x # w) # ws | [] \<Rightarrow> [[x]]))"

section \<open>Map renderer: layers and visibility\<close>

text \<open>
  The \<^verbatim>\<open>useRef\<close> cells the visibility toggle reads and writes. A layer object of the
  map library is a handle; the map widget is the set of layers attached to it
  (\<^verbatim>\<open>layer.addTo(map)\<close> attaches a layer, and does nothing to one already attached;
  \<^verbatim>\<open>map.removeLayer(layer)\<close> detaches it). \<open>mapRef\<close> is \<open>None\<close> while
  \<^verbatim>\<open>mapRef.current\<close> is null.
\<close>

type_synonym layer = nat

record MapRefs =
  mapRef :: "layer set option"
  layersRef :: "string \<rightharpoonup> layer \<times> layer"
  hiddenLinesRef :: "string set"

text \<open>
  \<^verbatim>\<open>layersRef.current\<close> is a plain object, \<^verbatim>\<open>{}\<close>, used as a table from line
  identifiers to \<^verbatim>\<open>{ polyline, marker }\<close>; \<open>layersRef\<close> holds its own properties.
  A read \<^verbatim>\<open>layersRef.current[lineId]\<close> also finds what every plain object inherits
  from \<^verbatim>\<open>Object.prototype\<close>: under the names below it returns a function or an object,
  which is truthy and has no \<^verbatim>\<open>polyline\<close> or \<^verbatim>\<open>marker\<close> property.
  \<^verbatim>\<open>__proto__\<close> is an accessor: a read returns the prototype object whatever the table
  holds, and no assignment makes it an own property.
\<close>

definition object_prototype_names :: "string list" where
  "object_prototype_names =
     [''constructor'', ''__defineGetter__'', ''__defineSetter__'', ''hasOwnProperty'',
      ''__lookupGetter__'', ''__lookupSetter__'', ''isPrototypeOf'', ''propertyIsEnumerable'',
      ''toString'', ''valueOf'', ''__proto__'', ''toLocaleString'']"

datatype property_read = Undefined | Layers layer layer | Inherited

definition read_layers :: "(string \<rightharpoonup> layer \<times> layer) \<Rightarrow> string \<Rightarrow> property_read" where
  "read_layers own key =
     (if key = ''__proto__'' then Inherited
      else (case own key of
              Some (polyline, marker) \<Rightarrow> Layers polyline marker
            | None \<Rightarrow> if key \<in> set object_prototype_names then Inherited else Undefined))"

text \<open>
  A call either returns or throws a \<^verbatim>\<open>TypeError\<close>; in both cases the refs are what the
  statements executed so far made of them.
\<close>

datatype toggle_result = Returned MapRefs | TypeError MapRefs

text \<open>
  \<^verbatim>\<open>const map = mapRef.current; const layers = layersRef.current[lineId]\<close>
  \<^verbatim>\<open>if (!map || !layers) return\<close>
  \<^verbatim>\<open>if (visible) { hiddenLinesRef.current.delete(lineId); layers.polyline.addTo(map);
  layers.marker.addTo(map) } else { hiddenLinesRef.current.add(lineId);
  map.removeLayer(layers.polyline); map.removeLayer(layers.marker) }\<close>
  When \<open>layers\<close> is an inherited value, \<^verbatim>\<open>layers.polyline\<close> is \<^verbatim>\<open>undefined\<close>:
  \<^verbatim>\<open>undefined.addTo\<close> throws, and so does \<^verbatim>\<open>map.removeLayer(undefined)\<close>, where
  the library reads a property of its argument. The hidden set has been written by then.
\<close>

definition toggleLineVisibility :: "string \<Rightarrow> bool \<Rightarrow> MapRefs \<Rightarrow> toggle_result" where
  "toggleLineVisibility lid visible m =
     (case mapRef m of
        None \<Rightarrow> Returned m
      | Some onMap \<Rightarrow>
          (case read_layers (layersRef m) lid of
             Undefined \<Rightarrow> Returned m
           | Layers polyline marker \<Rightarrow>
               if visible
               then Returned (m\<lparr>hiddenLinesRef := hiddenLinesRef m - {lid},
                                mapRef := Some (insert marker (insert polyline onMap))\<rparr>)
               else Returned (m\<lparr>hiddenLinesRef := insert lid (hiddenLinesRef m),
                                mapRef := Some (onMap - {polyline} - {marker})\<rparr>)
           | Inherited \<Rightarrow>
               if visible
               then TypeError (m\<lparr>hiddenLinesRef := hiddenLinesRef m - {lid}\<rparr>)
               else TypeError (m\<lparr>hiddenLinesRef := insert lid (hiddenLinesRef m)\<rparr>)))"

text \<open>
  The refs once the map is drawn for the seed set: the tile layer and the polyline and
  marker of each of the three lines are attached, no line is hidden.
\<close>

definition seedMapRefs :: MapRefs where
  "seedMapRefs =
     \<lparr>mapRef = Some {10, 11, 12, 13, 14, 15, 16},
      layersRef = [''lt-1'' \<mapsto> (11, 12), ''lt-2'' \<mapsto> (13, 14), ''lt-3'' \<mapsto> (15, 16)],
      hiddenLinesRef = {}\<rparr>"

section \<open>Notification log: properties\<close>

lemma addNotification_upd_length: "length (addNotification_upd nid t lid msg st prev) \<le> 20"
  by (simp add: addNotification_upd_def)

lemma addNotifications_length:
  "length prev \<le> 20 \<Longrightarrow> length (addNotifications cs prev) \<le> 20"
proof (induction cs arbitrary: prev)
  case Nil
  then show ?case by simp
next
  case (Cons c cs)
  obtain nid t lid msg st where c: "c = (nid, t, lid, msg, st)"
    by (cases c) auto
  show ?case
    using Cons.IH [of "addNotification_call c prev"] c
    by (simp add: addNotification_upd_length)
qed

lemma take_20_full: "length prev = 20 \<Longrightarrow> take 19 prev = butlast prev"
  by (simp add: butlast_conv_take)

text \<open>
  C3. Starting from a log of at most 20 entries, after any sequence of
  \<open>addNotification\<close> calls the log has at most 20 entries; a call puts its entry first,
  followed by the previous entries in their order, cut after the 19th; and when the log
  was full (20 entries) the entry dropped is the last one, the oldest.
\<close>

theorem C3_notification_cap:
  "length prev \<le> 20 \<Longrightarrow>
     length (addNotifications cs prev) \<le> 20
   \<and> addNotification_upd nid t lid msg st (addNotifications cs prev)
       = \<lparr>id_n = nid, ts = t, lineId = lid, message = msg, status_n = st\<rparr>
           # take 19 (addNotifications cs prev)
   \<and> (length (addNotifications cs prev) < 20 \<longrightarrow>
        addNotification_upd nid t lid msg st (addNotifications cs prev)
          = \<lparr>id_n = nid, ts = t, lineId = lid, message = msg, status_n = st\<rparr>
              # addNotifications cs prev)
   \<and> (length (addNotifications cs prev) = 20 \<longrightarrow>
        addNotification_upd nid t lid msg st (addNotifications cs prev)
          = \<lparr>id_n = nid, ts = t, lineId = lid, message = msg, status_n = st\<rparr>
              # butlast (addNotifications cs prev))"
proof -
  assume le: "length prev \<le> 20"
  let ?log = "addNotifications cs prev"
  have len: "length ?log \<le> 20"
    using le by (rule addNotifications_length)
  have step: "addNotification_upd nid t lid msg st ?log
      = \<lparr>id_n = nid, ts = t, lineId = lid, message = msg, status_n = st\<rparr> # take 19 ?log"
    by (simp add: addNotification_upd_def)
  have room: "length ?log < 20 \<Longrightarrow> take 19 ?log = ?log"
    by simp
  have full: "length ?log = 20 \<Longrightarrow> take 19 ?log = butlast ?log"
    by (rule take_20_full)
  show ?thesis
    using len step room full by simp
qed

theorem C3_notification_cap_witness:
  "length (replicate 20 \<lparr>id_n = ''0'', ts = 0, lineId = ''system'', message = ''m'', status_n = Healthy\<rparr>) \<le> 20
   \<and> addNotification_upd ''2'' 2 ''lt-2'' ''b'' Shutoff
       (addNotifications [(''1'', 1, ''lt-1'', ''a'', Fault)]
          (replicate 20 \<lparr>id_n = ''0'', ts = 0, lineId = ''system'', message = ''m'', status_n = Healthy\<rparr>))
     = \<lparr>id_n = ''2'', ts = 2, lineId = ''lt-2'', message = ''b'', status_n = Shutoff\<rparr>
       # \<lparr>id_n = ''1'', ts = 1, lineId = ''lt-1'', message = ''a'', status_n = Fault\<rparr>
       # replicate 18 \<lparr>id_n = ''0'', ts = 0, lineId = ''system'', message = ''m'', status_n = Healthy\<rparr>"
  using C3_notification_cap
    [of "replicate 20 \<lparr>id_n = ''0'', ts = 0, lineId = ''system'', message = ''m'', status_n = Healthy\<rparr>"
        "[(''1'', 1, ''lt-1'', ''a'', Fault)]" "''2''" 2 "''lt-2''" "''b''" Shutoff]
  by (simp add: addNotification_upd_def)

section \<open>Status controller: properties\<close>

lemma notifications_updateLineStatus:
  "notifications (updateLineStatus nid t lid st s)
     = addNotification_upd nid t lid (lineName_of (lines s) lid @ '' status changed to '' @ status_text st)
         st (notifications s)"
  by (simp add: updateLineStatus_def addNotification_def Let_def)

lemma lines_updateLineStatus:
  "lines (updateLineStatus nid t lid st s) = setLines_status lid st (lines s)"
  by (simp add: updateLineStatus_def addNotification_def Let_def)

lemma find_id_Some_iff_mem:
  "(\<exists>l. find (\<lambda>l. id_l l = lid) ls = Some l) \<longleftrightarrow> lid \<in> set (map id_l ls)"
  by (induction ls) auto

lemma find_id_None_iff: "find (\<lambda>l. id_l l = lid) ls = None \<longleftrightarrow> lid \<notin> set (map id_l ls)"
  by (induction ls) auto

text \<open>
  C4. When \<open>lid\<close> is the identifier of a line of the registry, \<open>l\<close> being the line
  \<^verbatim>\<open>find\<close> returns for it (the first such line, with the name it has before the
  update), \<open>updateLineStatus\<close> puts exactly one entry in front of the log (cut to 20
  entries): its message is that name, followed by \<open>status changed to\<close> and the new
  status, its line identifier is \<open>lid\<close> and its status field is the new status.
\<close>

theorem C4_one_notification_per_update:
  "find (\<lambda>l. id_l l = lid) (lines s) = Some l \<Longrightarrow>
     notifications (updateLineStatus nid t lid st s)
       = take 20 (\<lparr>id_n = nid, ts = t, lineId = lid,
                    message = name l @ '' status changed to '' @ status_text st,
                    status_n = st\<rparr> # notifications s)
   \<and> id_l l = lid \<and> l \<in> set (lines s)"
proof -
  assume f: "find (\<lambda>l. id_l l = lid) (lines s) = Some l"
  have nm: "lineName_of (lines s) lid = name l"
    using f by (simp add: lineName_of_def)
  have mem: "id_l l = lid \<and> l \<in> set (lines s)"
    using f by (auto simp: find_Some_iff)
  show ?thesis
    using nm mem by (simp add: notifications_updateLineStatus addNotification_upd_def)
qed

theorem C4_one_notification_per_update_witness:
  "find (\<lambda>l. id_l l = ''lt-2'') (lines initialDashboard)
     = Some \<lparr>id_l = ''lt-2'', name = ''LT Line - Kochi Coastal'',
             coords = [(994 / 100, 7627 / 100), (997 / 100, 7631 / 100), (1002 / 100, 7632 / 100),
                       (1006 / 100, 7634 / 100)],
             status = Healthy\<rparr>
   \<and> notifications (updateLineStatus ''n1'' 7 ''lt-2'' Fault initialDashboard)
     = [\<lparr>id_n = ''n1'', ts = 7, lineId = ''lt-2'',
         message = ''LT Line - Kochi Coastal status changed to Fault'', status_n = Fault\<rparr>]"
proof -
  have f: "find (\<lambda>l. id_l l = ''lt-2'') (lines initialDashboard)
     = Some \<lparr>id_l = ''lt-2'', name = ''LT Line - Kochi Coastal'',
             coords = [(994 / 100, 7627 / 100), (997 / 100, 7631 / 100), (1002 / 100, 7632 / 100),
                       (1006 / 100, 7634 / 100)],
             status = Healthy\<rparr>"
    by (simp add: initialDashboard_def initialLines_def)
  show ?thesis
    using f C4_one_notification_per_update [OF f, of "''n1''" 7 Fault]
    by (simp add: initialDashboard_def)
qed

text \<open>
  C8. Clear All leaves the log empty, whatever it held, and does not touch the lines.
\<close>

theorem C8_clear_all_empties_log:
  "notifications (clearAll s) = [] \<and> lines (clearAll s) = lines s"
  by (simp add: clearAll_def)

lemma setLines_status_nth:
  "i < length ls \<Longrightarrow>
     setLines_status lid st ls ! i = (if id_l (ls ! i) = lid then (ls ! i)\<lparr>status := st\<rparr> else ls ! i)"
  by (simp add: setLines_status_def)

text \<open>
  C9. \<open>updateLineStatus\<close> keeps the number of lines and, position by position, every
  line's identifier, name and coordinates; a line whose identifier is not \<open>lid\<close> is
  left as it is, status included.
\<close>

theorem C9_update_frame:
  "length (lines (updateLineStatus nid t lid st s)) = length (lines s)
   \<and> map id_l (lines (updateLineStatus nid t lid st s)) = map id_l (lines s)
   \<and> map name (lines (updateLineStatus nid t lid st s)) = map name (lines s)
   \<and> map coords (lines (updateLineStatus nid t lid st s)) = map coords (lines s)
   \<and> (\<forall>i < length (lines s).
        id_l (lines s ! i) \<noteq> lid \<longrightarrow> lines (updateLineStatus nid t lid st s) ! i = lines s ! i)"
proof -
  let ?ls = "lines s"
  have l: "length (setLines_status lid st ?ls) = length ?ls"
    by (simp add: setLines_status_def)
  have i: "map id_l (setLines_status lid st ?ls) = map id_l ?ls"
    by (simp add: setLines_status_def)
  have n: "map name (setLines_status lid st ?ls) = map name ?ls"
    by (simp add: setLines_status_def)
  have c: "map coords (setLines_status lid st ?ls) = map coords ?ls"
    by (simp add: setLines_status_def)
  have o: "\<forall>i < length ?ls. id_l (?ls ! i) \<noteq> lid \<longrightarrow> setLines_status lid st ?ls ! i = ?ls ! i"
    by (simp add: setLines_status_nth)
  show ?thesis
    using l i n c o by (simp add: lines_updateLineStatus)
qed

theorem C9_update_frame_witness:
  "lines (updateLineStatus ''n1'' 7 ''lt-2'' Fault initialDashboard) ! 0 = initialLines ! 0
   \<and> lines (updateLineStatus ''n1'' 7 ''lt-2'' Fault initialDashboard) ! 2 = initialLines ! 2
   \<and> map name (lines (updateLineStatus ''n1'' 7 ''lt-2'' Fault initialDashboard))
       = [''LT Line - Trivandrum North'', ''LT Line - Kochi Coastal'', ''LT Line - Kozhikode Rural'']"
  using C9_update_frame [of "''n1''" 7 "''lt-2''" Fault initialDashboard]
  by (simp add: initialDashboard_def initialLines_def)

lemma setLines_status_absent:
  "lid \<notin> set (map id_l ls) \<Longrightarrow> setLines_status lid st ls = ls"
  by (induction ls) (auto simp: setLines_status_def)

text \<open>
  C10. When no line of the registry has the identifier \<open>lid\<close>, \<open>updateLineStatus\<close>
  leaves the line list as it is and still puts one entry in front of the log (cut to 20
  entries), whose message is \<open>Line status changed to\<close> followed by the requested status.
\<close>

theorem C10_update_unknown_line:
  "lid \<notin> set (map id_l (lines s)) \<Longrightarrow>
     lines (updateLineStatus nid t lid st s) = lines s
   \<and> notifications (updateLineStatus nid t lid st s)
       = take 20 (\<lparr>id_n = nid, ts = t, lineId = lid,
                    message = ''Line status changed to '' @ status_text st,
                    status_n = st\<rparr> # notifications s)"
proof -
  assume a: "lid \<notin> set (map id_l (lines s))"
  have nm: "lineName_of (lines s) lid = ''Line''"
    using a find_id_None_iff [of lid "lines s"] by (simp add: lineName_of_def)
  have ls: "setLines_status lid st (lines s) = lines s"
    using a by (rule setLines_status_absent)
  show ?thesis
    using nm ls
    by (simp add: notifications_updateLineStatus lines_updateLineStatus addNotification_upd_def)
qed

theorem C10_update_unknown_line_witness:
  "''lt-9'' \<notin> set (map id_l (lines initialDashboard))
   \<and> lines (updateLineStatus ''n1'' 7 ''lt-9'' Shutoff initialDashboard) = initialLines
   \<and> notifications (updateLineStatus ''n1'' 7 ''lt-9'' Shutoff initialDashboard)
     = [\<lparr>id_n = ''n1'', ts = 7, lineId = ''lt-9'',
         message = ''Line status changed to Shutoff'', status_n = Shutoff\<rparr>]"
proof -
  have a: "''lt-9'' \<notin> set (map id_l (lines initialDashboard))"
    by (simp add: initialDashboard_def initialLines_def)
  show ?thesis
    using a C10_update_unknown_line [OF a, of "''n1''" 7 Shutoff]
    by (simp add: initialDashboard_def)
qed

section \<open>Report aggregator: counts\<close>

lemma fold_incr:
  "fold (\<lambda>l c. incr c (status l)) ls c0 st
     = c0 st + length (filter (\<lambda>l. status l = st) ls)"
proof (induction ls arbitrary: c0)
  case Nil
  then show ?case by simp
next
  case (Cons l ls)
  have "fold (\<lambda>l c. incr c (status l)) (l # ls) c0 st
      = fold (\<lambda>l c. incr c (status l)) ls (incr c0 (status l)) st"
    by simp
  also have "\<dots> = incr c0 (status l) st + length (filter (\<lambda>l. status l = st) ls)"
    by (rule Cons.IH)
  also have "\<dots> = c0 st + length (filter (\<lambda>l. status l = st) (l # ls))"
    by (simp add: incr_def)
  finally show ?case .
qed

lemma count_lines_filter: "count_lines ls st = length (filter (\<lambda>l. status l = st) ls)"
  by (simp add: count_lines_def fold_incr)

lemma status_partition:
  "length (filter (\<lambda>l. status l = Healthy) ls) + length (filter (\<lambda>l. status l = Fault) ls)
   + length (filter (\<lambda>l. status l = Shutoff) ls) = length ls"
proof (induction ls)
  case Nil
  then show ?case by simp
next
  case (Cons l ls)
  then show ?case by (cases "status l") simp_all
qed

lemma count_lines_sum:
  "count_lines ls Healthy + count_lines ls Fault + count_lines ls Shutoff = length ls"
  by (simp add: count_lines_filter status_partition)

text \<open>
  C6, on the empty list: the three counts are 0 and the report's total is 1
  (\<^verbatim>\<open>lines.length || 1\<close>), so the counts do not sum to the total.
\<close>

theorem C6_counts_sum_counterexample:
  "counts (report []) Healthy + counts (report []) Fault + counts (report []) Shutoff
     \<noteq> total (report [])"
  by (simp add: report_def Let_def count_lines_def)

text \<open>
  C6, amended. For every non-empty line list the three counts of the report sum to the
  report's total, which is the number of lines.
\<close>

theorem C6_counts_sum_nonempty:
  "ls \<noteq> [] \<Longrightarrow>
     counts (report ls) Healthy + counts (report ls) Fault + counts (report ls) Shutoff
       = total (report ls)
   \<and> total (report ls) = length ls"
  by (simp add: report_def Let_def count_lines_sum)

theorem C6_counts_sum_nonempty_witness:
  "initialLines \<noteq> [] \<and> counts (report initialLines) Healthy = 2 \<and> counts (report initialLines) Fault = 0
   \<and> counts (report initialLines) Shutoff = 1 \<and> total (report initialLines) = 3"
  using C6_counts_sum_nonempty [of initialLines]
  by (simp add: initialLines_def report_def Let_def count_lines_def incr_def)


section \<open>Visibility toggle: properties\<close>

lemma read_layers_own:
  "own lid = Some (polyline, marker) \<Longrightarrow> lid \<noteq> ''__proto__'' \<Longrightarrow>
     read_layers own lid = Layers polyline marker"
  by (simp add: read_layers_def)

lemma read_layers_absent:
  "own lid = None \<Longrightarrow> lid \<notin> set object_prototype_names \<Longrightarrow> read_layers own lid = Undefined"
  by (auto simp: read_layers_def object_prototype_names_def)

lemma read_layers_inherited:
  "own lid = None \<Longrightarrow> lid \<in> set object_prototype_names \<Longrightarrow> read_layers own lid = Inherited"
  by (simp add: read_layers_def)

text \<open>Without a map the call returns and changes nothing, whatever the identifier.\<close>

lemma toggleLineVisibility_no_map:
  "mapRef m = None \<Longrightarrow> toggleLineVisibility lid visible m = Returned m"
  by (simp add: toggleLineVisibility_def)

text \<open>
  For an identifier that is not a property name of \<^verbatim>\<open>Object.prototype\<close> the call does
  what is expected of it: nothing when the line has no layers yet; otherwise the line
  leaves or enters the hidden set and its two layers are attached or detached.
\<close>

lemma toggleLineVisibility_no_layers:
  "layersRef m lid = None \<Longrightarrow> lid \<notin> set object_prototype_names \<Longrightarrow>
     toggleLineVisibility lid visible m = Returned m"
  by (simp add: toggleLineVisibility_def read_layers_absent split: option.splits)

lemma toggleLineVisibility_own_layers:
  "mapRef m = Some onMap \<Longrightarrow> layersRef m lid = Some (polyline, marker) \<Longrightarrow>
   lid \<noteq> ''__proto__'' \<Longrightarrow>
     toggleLineVisibility lid visible m
       = Returned (m\<lparr>hiddenLinesRef :=
                        (if visible then hiddenLinesRef m - {lid} else insert lid (hiddenLinesRef m)),
                      mapRef :=
                        Some (if visible then insert marker (insert polyline onMap)
                              else onMap - {polyline} - {marker})\<rparr>)"
  by (simp add: toggleLineVisibility_def read_layers_own)

lemma toggleLineVisibility_seed_hide:
  "toggleLineVisibility ''lt-2'' False seedMapRefs
     = Returned (seedMapRefs\<lparr>hiddenLinesRef := {''lt-2''},
                             mapRef := Some {10, 11, 12, 15, 16}\<rparr>)"
proof -
  have d: "{10::nat, 11, 12, 13, 14, 15, 16} - {13} - {14} = {10, 11, 12, 15, 16}"
    by auto
  show ?thesis
    by (simp add: toggleLineVisibility_def read_layers_def seedMapRefs_def d)
qed


section \<open>CSV exporter: properties\<close>

lemma split_on_no_sep: "c \<notin> set x \<Longrightarrow> split_on c x = [x]"
  by (induction x) auto

lemma split_on_append_sep:
  "c \<notin> set x \<Longrightarrow> split_on c (x @ c # rest) = x # split_on c rest"
  by (induction x) auto

lemma split_on_join:
  "xs \<noteq> [] \<Longrightarrow> \<forall>x \<in> set xs. c \<notin> set x \<Longrightarrow> split_on c (join [c] xs) = xs"
proof (induction "[c]" xs rule: join.induct)
  case 1
  then show ?case by simp
next
  case (2 x)
  then show ?case by (simp add: split_on_no_sep)
next
  case (3 x y ys)
  then show ?case by (simp add: split_on_append_sep)
qed

lemma status_text_no_nl: "CHR 0x0A \<notin> set (status_text st)"
  by (cases st) simp_all

lemma quote_field_no_nl: "CHR 0x0A \<notin> set c \<Longrightarrow> CHR 0x0A \<notin> set (quote_field c)"
  by (simp add: quote_field_def)

lemma csv_text:
  "snd (downloadCSV d ls)
     = join [CHR 0x0A]
         ((quote_field ''Line ID'' @ '','' @ quote_field ''Name'' @ '','' @ quote_field ''Status'')
          # map (\<lambda>l. quote_field (id_l l) @ '','' @ quote_field (name l) @ '',''
                       @ quote_field (status_text (status l))) ls)"
  by (simp add: downloadCSV_def Let_def comp_def)

lemma csv_split:
  assumes "\<forall>l \<in> set ls. CHR 0x0A \<notin> set (id_l l) \<and> CHR 0x0A \<notin> set (name l)"
  shows "split_on (CHR 0x0A) (snd (downloadCSV d ls))
     = (quote_field ''Line ID'' @ '','' @ quote_field ''Name'' @ '','' @ quote_field ''Status'')
       # map (\<lambda>l. quote_field (id_l l) @ '','' @ quote_field (name l) @ '',''
                    @ quote_field (status_text (status l))) ls"
proof -
  have rows: "\<forall>x \<in> set ((quote_field ''Line ID'' @ '','' @ quote_field ''Name'' @ '','' @ quote_field ''Status'')
       # map (\<lambda>l. quote_field (id_l l) @ '','' @ quote_field (name l) @ '',''
                    @ quote_field (status_text (status l))) ls). CHR 0x0A \<notin> set x"
    using assms by (auto simp: quote_field_def status_text_no_nl)
  show ?thesis
    unfolding csv_text by (rule split_on_join) (simp, rule rows)
qed

text \<open>
  C5. The exported text is the rows joined by newlines, the first row being the header
  \<open>"Line ID","Name","Status"\<close> and the others, one per line in the list's order, the
  line's identifier, name and status, every field between double quotes and the fields
  separated by commas. When no identifier or name contains a newline, cutting the text at
  the newlines gives back exactly these rows, one more than there are lines; on the
  three-line seed set these are 4 rows. The file name is \<open>ksebl-lt-report-\<close>, the first
  ten characters of the ISO date, and \<open>.csv\<close>.
\<close>

theorem C5_csv_export:
  "snd (downloadCSV d ls)
     = join [CHR 0x0A]
         ((quote_field ''Line ID'' @ '','' @ quote_field ''Name'' @ '','' @ quote_field ''Status'')
          # map (\<lambda>l. quote_field (id_l l) @ '','' @ quote_field (name l) @ '',''
                       @ quote_field (status_text (status l))) ls)
   \<and> ((\<forall>l \<in> set ls. CHR 0x0A \<notin> set (id_l l) \<and> CHR 0x0A \<notin> set (name l)) \<longrightarrow>
        split_on (CHR 0x0A) (snd (downloadCSV d ls))
          = (quote_field ''Line ID'' @ '','' @ quote_field ''Name'' @ '','' @ quote_field ''Status'')
            # map (\<lambda>l. quote_field (id_l l) @ '','' @ quote_field (name l) @ '',''
                         @ quote_field (status_text (status l))) ls
        \<and> length (split_on (CHR 0x0A) (snd (downloadCSV d ls))) = 1 + length ls)
   \<and> split_on (CHR 0x0A) (snd (downloadCSV d initialLines))
        = [quote_field ''Line ID'' @ '','' @ quote_field ''Name'' @ '','' @ quote_field ''Status'',
           quote_field ''lt-1'' @ '','' @ quote_field ''LT Line - Trivandrum North'' @ '',''
             @ quote_field ''Healthy'',
           quote_field ''lt-2'' @ '','' @ quote_field ''LT Line - Kochi Coastal'' @ '',''
             @ quote_field ''Healthy'',
           quote_field ''lt-3'' @ '','' @ quote_field ''LT Line - Kozhikode Rural'' @ '',''
             @ quote_field ''Shutoff'']
   \<and> length (split_on (CHR 0x0A) (snd (downloadCSV d initialLines))) = 4
   \<and> fst (downloadCSV d ls) = ''ksebl-lt-report-'' @ take 10 d @ ''.csv''
   \<and> quote_field c = CHR 0x22 # c @ [CHR 0x22]"
proof -
  let ?hdr = "quote_field ''Line ID'' @ '','' @ quote_field ''Name'' @ '','' @ quote_field ''Status''"
  let ?row = "\<lambda>l. quote_field (id_l l) @ '','' @ quote_field (name l) @ '',''
                       @ quote_field (status_text (status l))"
  have seed: "\<forall>l \<in> set initialLines. CHR 0x0A \<notin> set (id_l l) \<and> CHR 0x0A \<notin> set (name l)"
    by (simp add: initialLines_def)
  have s1: "split_on (CHR 0x0A) (snd (downloadCSV d initialLines)) = ?hdr # map ?row initialLines"
    by (rule csv_split [OF seed])
  have s2: "?hdr # map ?row initialLines
        = [quote_field ''Line ID'' @ '','' @ quote_field ''Name'' @ '','' @ quote_field ''Status'',
           quote_field ''lt-1'' @ '','' @ quote_field ''LT Line - Trivandrum North'' @ '',''
             @ quote_field ''Healthy'',
           quote_field ''lt-2'' @ '','' @ quote_field ''LT Line - Kochi Coastal'' @ '',''
             @ quote_field ''Healthy'',
           quote_field ''lt-3'' @ '','' @ quote_field ''LT Line - Kozhikode Rural'' @ '',''
             @ quote_field ''Shutoff'']"
    by (simp add: initialLines_def)
  have nm: "fst (downloadCSV d ls) = ''ksebl-lt-report-'' @ take 10 d @ ''.csv''"
    by (simp add: downloadCSV_def Let_def)
  show ?thesis
  proof (intro conjI impI)
    show "snd (downloadCSV d ls) = join [CHR 0x0A] (?hdr # map ?row ls)" by (rule csv_text)
  next
    assume a: "\<forall>l \<in> set ls. CHR 0x0A \<notin> set (id_l l) \<and> CHR 0x0A \<notin> set (name l)"
    show "split_on (CHR 0x0A) (snd (downloadCSV d ls)) = ?hdr # map ?row ls"
      by (rule csv_split [OF a])
  next
    assume a: "\<forall>l \<in> set ls. CHR 0x0A \<notin> set (id_l l) \<and> CHR 0x0A \<notin> set (name l)"
    show "length (split_on (CHR 0x0A) (snd (downloadCSV d ls))) = 1 + length ls"
      by (simp add: csv_split [OF a])
  next
    show "split_on (CHR 0x0A) (snd (downloadCSV d initialLines))
        = [quote_field ''Line ID'' @ '','' @ quote_field ''Name'' @ '','' @ quote_field ''Status'',
           quote_field ''lt-1'' @ '','' @ quote_field ''LT Line - Trivandrum North'' @ '',''
             @ quote_field ''Healthy'',
           quote_field ''lt-2'' @ '','' @ quote_field ''LT Line - Kochi Coastal'' @ '',''
             @ quote_field ''Healthy'',
           quote_field ''lt-3'' @ '','' @ quote_field ''LT Line - Kozhikode Rural'' @ '',''
             @ quote_field ''Shutoff'']"
      by (simp only: s1 s2)
  next
    show "length (split_on (CHR 0x0A) (snd (downloadCSV d initialLines))) = 4"
      by (simp only: s1) (simp add: initialLines_def)
  next
    show "fst (downloadCSV d ls) = ''ksebl-lt-report-'' @ take 10 d @ ''.csv''" by (rule nm)
  next
    show "quote_field c = CHR 0x22 # c @ [CHR 0x22]" by (simp add: quote_field_def)
  qed
qed

theorem C5_csv_export_witness:
  "length (split_on (CHR 0x0A) (snd (downloadCSV ''2026-11-02T09:56:00.000Z'' initialLines)))
       = 1 + length initialLines
   \<and> fst (downloadCSV ''2026-11-02T09:56:00.000Z'' initialLines) = ''ksebl-lt-report-2026-11-02.csv''"
proof -
  have seed: "\<forall>l \<in> set initialLines. CHR 0x0A \<notin> set (id_l l) \<and> CHR 0x0A \<notin> set (name l)"
    by (simp add: initialLines_def)
  note all = C5_csv_export [of "''2026-11-02T09:56:00.000Z''" initialLines "[]"]
  note imp = conjunct1 [OF conjunct2 [OF all]]
  have len: "length (split_on (CHR 0x0A) (snd (downloadCSV ''2026-11-02T09:56:00.000Z'' initialLines)))
       = 1 + length initialLines"
    by (rule conjunct2 [OF mp [OF imp seed]])
  have nm: "fst (downloadCSV ''2026-11-02T09:56:00.000Z'' initialLines) = ''ksebl-lt-report-2026-11-02.csv''"
    by (simp add: downloadCSV_def Let_def)
  show ?thesis
    by (intro conjI len nm)
qed

section \<open>JavaScript numbers: properties\<close>

subsection \<open>Powers of two and bit lengths\<close>

lemma pow2_power_int: "pow2 k = power_int 2 k"
proof (cases "0 \<le> k")
  case True
  then show ?thesis by (simp add: pow2_def power_int_def)
next
  case False
  then have "power_int (2::rat) k = inverse 2 ^ nat (- k)" by (simp add: power_int_def)
  also have "\<dots> = 1 / 2 ^ nat (- k)" by (simp only: inverse_eq_divide power_one_over)
  finally show ?thesis using False by (simp add: pow2_def)
qed

lemma pow2_pos: "0 < pow2 k"
  by (simp add: pow2_def)

lemma pow2_add: "pow2 (a + b) = pow2 a * pow2 b"
  by (simp add: pow2_power_int power_int_add)

lemma pow2_diff: "pow2 (a - b) = pow2 a / pow2 b"
  by (simp add: pow2_power_int power_int_diff)

lemma pow2_nat: "pow2 (int n) = 2 ^ n"
  by (simp add: pow2_def)

lemma pow2_mono: "a \<le> b \<Longrightarrow> pow2 a \<le> pow2 b"
  by (simp add: pow2_power_int power_int_increasing)

lemma pow2_less_cancel: "pow2 a < pow2 b \<Longrightarrow> a < b"
  using pow2_mono [of b a] by (cases "a < b") auto

lemma bit_len_bounds: "0 < n \<Longrightarrow> 2 ^ (bit_len n - 1) \<le> n \<and> n < 2 ^ bit_len n"
proof (induction n rule: bit_len.induct)
  case (1 n)
  show ?case
  proof (cases "n div 2 = 0")
    case True
    with "1.prems" have "n = 1" by (cases n) auto
    then show ?thesis by (simp add: bit_len.simps)
  next
    case False
    then have pos: "0 < n div 2" by simp
    have n0: "n \<noteq> 0" using "1.prems" by simp
    from "1.IH" [OF n0 pos]
    have ih: "2 ^ (bit_len (n div 2) - 1) \<le> n div 2" "n div 2 < 2 ^ bit_len (n div 2)"
      by auto
    have bl: "bit_len n = Suc (bit_len (n div 2))"
      using n0 by (subst bit_len.simps) simp
    have bp: "0 < bit_len (n div 2)"
      using pos by (subst bit_len.simps) simp
    then obtain j where j: "bit_len (n div 2) = Suc j" by (cases "bit_len (n div 2)") auto
    from ih j have "2 ^ j \<le> n div 2" "n div 2 < 2 ^ Suc j" by auto
    then have "2 ^ Suc j \<le> n" "n < 2 ^ Suc (Suc j)" by auto
    then show ?thesis by (simp add: bl j)
  qed
qed

subsection \<open>Rounding to a double\<close>

lemma roundTiesToEven_err: "\<bar>of_int (roundTiesToEven m) - m\<bar> \<le> 1 / 2"
proof -
  have "of_int \<lfloor>m\<rfloor> \<le> m" "m < of_int \<lfloor>m\<rfloor> + 1" by linarith+
  then show ?thesis
    by (auto simp: roundTiesToEven_def Let_def)
qed

lemma roundTiesToEven_of_int: "roundTiesToEven (of_int z) = z"
  by (simp add: roundTiesToEven_def)

lemma roundTiesToEven_nonneg: "0 \<le> m \<Longrightarrow> 0 \<le> roundTiesToEven m"
  by (auto simp: roundTiesToEven_def Let_def)

lemma quotient_bit_len:
  assumes q: "0 < q" and pd: "quotient_of q = (p, d)"
  shows "pow2 (int (bit_len (nat p)) - int (bit_len (nat d)) - 1) < q"
proof -
  have d: "0 < d" using pd by (rule quotient_of_denom_pos)
  have qe: "q = of_int p / of_int d" using pd by (rule quotient_of_div)
  have p: "0 < p" using q d qe by (simp add: zero_less_divide_iff)
  let ?a = "bit_len (nat p)" and ?b = "bit_len (nat d)"
  have pb: "2 ^ (?a - 1) \<le> nat p" using bit_len_bounds [of "nat p"] p by simp
  have db: "nat d < 2 ^ ?b" using bit_len_bounds [of "nat d"] d by simp
  have a1: "1 \<le> ?a" using p by (subst bit_len.simps) simp
  have pr: "(2::rat) ^ (?a - 1) \<le> of_int p"
  proof -
    have "(of_nat (2 ^ (?a - 1)) :: rat) \<le> of_nat (nat p)" using pb by (simp only: of_nat_le_iff)
    then show ?thesis using p by simp
  qed
  have dr: "(of_int d :: rat) < 2 ^ ?b"
  proof -
    have "(of_nat (nat d) :: rat) < of_nat (2 ^ ?b)" using db by (simp only: of_nat_less_iff)
    then show ?thesis using d by simp
  qed
  have dpos: "(0::rat) < of_int d" using d by simp
  have "pow2 (int ?a - int ?b - 1) = pow2 (int (?a - 1)) / pow2 (int ?b)"
  proof -
    have "int ?a - int ?b - 1 = int (?a - 1) - int ?b" using a1 by simp
    then show ?thesis by (simp only: pow2_diff)
  qed
  also have "\<dots> = 2 ^ (?a - 1) / 2 ^ ?b" by (simp only: pow2_nat)
  also have "\<dots> \<le> of_int p / 2 ^ ?b" using pr by (simp add: divide_right_mono)
  also have "\<dots> < of_int p / of_int d"
    using dr dpos p by (simp add: divide_strict_left_mono)
  finally show ?thesis using qe by simp
qed

lemma ilog2_lower:
  assumes q: "0 < q"
  shows "pow2 (ilog2 q) \<le> q"
proof -
  obtain p d where pd: "quotient_of q = (p, d)" by (cases "quotient_of q")
  let ?k = "int (bit_len (nat p)) - int (bit_len (nat d))"
  have il: "ilog2 q = (if pow2 ?k \<le> q then ?k else ?k - 1)"
    by (simp add: ilog2_def pd Let_def)
  show ?thesis
  proof (cases "pow2 ?k \<le> q")
    case True
    then show ?thesis using il by simp
  next
    case False
    then show ?thesis using il quotient_bit_len [OF q pd] by simp
  qed
qed

lemma ilog2_upper:
  assumes q: "0 < q" and lt: "q < pow2 N"
  shows "ilog2 q < N"
proof -
  have "pow2 (ilog2 q) < pow2 N" using ilog2_lower [OF q] lt by simp
  then show ?thesis by (rule pow2_less_cancel)
qed

lemma fl_pos_eq:
  "0 < q \<Longrightarrow> fl q = of_int (roundTiesToEven (q / pow2 (ilog2 q - 52))) * pow2 (ilog2 q - 52)"
  by (simp add: fl_def Let_def)

lemma fl_err:
  assumes q: "0 < q"
  shows "\<bar>fl q - q\<bar> \<le> pow2 (ilog2 q - 52) / 2"
proof -
  let ?u = "pow2 (ilog2 q - 52)"
  have u: "0 < ?u" by (rule pow2_pos)
  have "fl q - q = (of_int (roundTiesToEven (q / ?u)) - q / ?u) * ?u"
    using u by (simp add: fl_pos_eq [OF q] algebra_simps)
  then have "\<bar>fl q - q\<bar> = \<bar>of_int (roundTiesToEven (q / ?u)) - q / ?u\<bar> * ?u"
    using u by (simp add: abs_mult)
  also have "\<dots> \<le> (1 / 2) * ?u"
    using u roundTiesToEven_err [of "q / ?u"] by (simp add: mult_right_mono)
  finally show ?thesis by simp
qed

lemma fl_nonneg: "0 \<le> q \<Longrightarrow> 0 \<le> fl q"
proof (cases "q = 0")
  case True
  then show ?thesis by (simp add: fl_def)
next
  case False
  assume "0 \<le> q"
  with False have q: "0 < q" by simp
  have u: "0 < pow2 (ilog2 q - 52)" by (rule pow2_pos)
  have "0 \<le> roundTiesToEven (q / pow2 (ilog2 q - 52))"
    using q u by (intro roundTiesToEven_nonneg) simp
  then show ?thesis using u by (simp add: fl_pos_eq [OF q])
qed

lemma fl_half_integer:
  assumes n: "n < 2 ^ 53"
  shows "fl (of_nat n / 2) = of_nat n / 2"
proof (cases "n = 0")
  case True
  then show ?thesis by (simp add: fl_def)
next
  case False
  let ?q = "of_nat n / 2 :: rat"
  have q: "0 < ?q" using False by simp
  have "(of_nat n :: rat) < of_nat (2 ^ 53)" using n by (simp only: of_nat_less_iff)
  then have "?q < pow2 52" by (simp add: pow2_def)
  then have e: "ilog2 ?q < 52" using q by (intro ilog2_upper)
  define j where "j = nat (51 - ilog2 ?q)"
  have je: "ilog2 ?q - 52 = - int (Suc j)" using e by (simp add: j_def)
  have u: "pow2 (ilog2 ?q - 52) = 1 / 2 ^ Suc j"
    unfolding je by (simp add: pow2_def nat_add_distrib)
  have m: "?q / pow2 (ilog2 ?q - 52) = of_int (int n * 2 ^ j)"
    unfolding u by simp
  have "fl ?q = of_int (roundTiesToEven (?q / pow2 (ilog2 ?q - 52))) * pow2 (ilog2 ?q - 52)"
    by (rule fl_pos_eq [OF q])
  also have "\<dots> = of_int (roundTiesToEven (of_int (int n * 2 ^ j))) * pow2 (ilog2 ?q - 52)"
    by (simp only: m)
  also have "\<dots> = of_int (int n * 2 ^ j) * pow2 (ilog2 ?q - 52)"
    by (simp only: roundTiesToEven_of_int)
  also have "\<dots> = of_int (int n * 2 ^ j) * (1 / 2 ^ Suc j)"
    by (simp only: u)
  also have "\<dots> = ?q" by simp
  finally show ?thesis .
qed

text \<open>
  A number that is at most \<open>n * (1 - 2 ^ -53)\<close> rounds to a double below \<open>n\<close>.
\<close>

lemma fl_below:
  assumes x0: "0 \<le> x" and xn: "x \<le> of_nat n * (1 - 1 / 2 ^ 53)" and n: "0 < n"
  shows "fl x < of_nat n"
proof (cases "x = 0")
  case True
  then show ?thesis using n by (simp add: fl_def)
next
  case False
  then have x: "0 < x" using x0 by simp
  have nr: "(0::rat) < of_nat n" using n by simp
  have "of_nat n * (1 - 1 / 2 ^ 53) < (of_nat n :: rat)" using nr by simp
  then have xl: "x < of_nat n" using xn by linarith
  have p52: "pow2 52 = 2 ^ 52" by (simp add: pow2_def)
  have "pow2 (ilog2 x - 52) = pow2 (ilog2 x) / pow2 52" by (rule pow2_diff)
  then have "pow2 (ilog2 x - 52) / 2 = pow2 (ilog2 x) / 2 ^ 53"
    by (simp add: p52)
  also have "\<dots> \<le> x / 2 ^ 53"
    using ilog2_lower [OF x] by (simp add: divide_right_mono)
  also have "\<dots> < of_nat n / 2 ^ 53"
    using xl by (simp add: divide_strict_right_mono)
  finally have "pow2 (ilog2 x - 52) / 2 < of_nat n / 2 ^ 53" .
  moreover have "fl x \<le> x + pow2 (ilog2 x - 52) / 2"
    using fl_err [OF x] by linarith
  moreover have "x \<le> of_nat n - of_nat n / 2 ^ 53"
    using xn by (simp add: algebra_simps)
  ultimately show ?thesis by linarith
qed

section \<open>Report aggregator: the uptime estimate\<close>

text \<open>
  With fewer than \<open>2 ^ 32\<close> lines (the bound on the length of a JavaScript array) the
  two products and their sum are halves of integers below \<open>2 ^ 53\<close>, which doubles
  hold exactly: only the division rounds.
\<close>

lemma js_mul_995:
  assumes "h < 2 ^ 32"
  shows "js_mul (of_nat h) (995 / 10) = of_nat (199 * h) / 2"
proof -
  have b: "199 * h < 2 ^ 53" using assms by simp
  have "of_nat h * (995 / 10) = (of_nat (199 * h) / 2 :: rat)" by simp
  then show ?thesis using fl_half_integer [OF b] by (simp only: js_mul_def)
qed

lemma js_mul_70:
  assumes "f < 2 ^ 32"
  shows "js_mul (of_nat f) 70 = of_nat (140 * f) / 2"
proof -
  have b: "140 * f < 2 ^ 53" using assms by simp
  have "of_nat f * 70 = (of_nat (140 * f) / 2 :: rat)" by simp
  then show ?thesis using fl_half_integer [OF b] by (simp only: js_mul_def)
qed

lemma uptime_number_eq:
  assumes h: "c Healthy < 2 ^ 32" and f: "c Fault < 2 ^ 32"
  shows "uptime_number c n = fl (of_nat (199 * c Healthy + 140 * c Fault) / 2 / of_nat n)"
proof -
  have b: "199 * c Healthy + 140 * c Fault < 2 ^ 53" using h f by simp
  have "js_add (of_nat (199 * c Healthy) / 2) (of_nat (140 * c Fault) / 2)
      = fl (of_nat (199 * c Healthy + 140 * c Fault) / 2)"
    by (simp add: js_add_def add_divide_distrib)
  also have "\<dots> = of_nat (199 * c Healthy + 140 * c Fault) / 2"
    by (rule fl_half_integer [OF b])
  finally show ?thesis
    by (simp only: uptime_number_def js_mul_995 [OF h] js_mul_70 [OF f] js_div_def)
qed

text \<open>
  The quotient is at most \<open>99.5\<close>, so its double is within \<open>2 ^ -47\<close> of it, while
  the quotient, a multiple of \<open>1 / (2 * T)\<close>, is either halfway between two tenths or
  at least \<open>1 / (20 * T)\<close> away from that point: rounding the double to tenths gives
  a tenth nearest to the exact quotient.
\<close>

lemma toFixed1_n_zero: "toFixed1_n 0 = 0"
  by (simp add: toFixed1_n_def)

lemma toFixed1_n_near:
  assumes "0 \<le> x"
  shows "\<bar>of_nat (toFixed1_n x) / 10 - x\<bar> \<le> 1 / 20"
proof -
  let ?z = "\<lfloor>10 * x + 1 / 2\<rfloor>"
  have z0: "0 \<le> ?z" using assms by simp
  have n: "(of_nat (toFixed1_n x) :: rat) = of_int ?z"
    using z0 assms by (simp add: toFixed1_n_def)
  have "of_int ?z \<le> 10 * x + 1 / 2" "10 * x + 1 / 2 < of_int ?z + 1" by linarith+
  then show ?thesis unfolding n by linarith
qed

lemma tenths_near_exact:
  assumes T: "0 < T" "T < 2 ^ 32" and A: "A \<le> 199 * T"
  shows "\<bar>of_nat (toFixed1_n (fl (of_nat A / 2 / of_nat T))) / 10 - (of_nat A / 2 / of_nat T :: rat)\<bar>
           \<le> 1 / 20"
proof (cases "A = 0")
  case True
  then show ?thesis by (simp add: fl_def toFixed1_n_zero)
next
  case False
  let ?v = "of_nat A / 2 / of_nat T :: rat"
  let ?x = "fl ?v"
  let ?n = "toFixed1_n ?x"
  have Tr: "(0::rat) < of_nat T" using T by simp
  have v: "0 < ?v" using False T by simp
  have "(of_nat A :: rat) \<le> of_nat (199 * T)" using A by (simp only: of_nat_le_iff)
  then have "?v \<le> 199 / 2" using Tr by (simp add: field_simps)
  then have "?v < pow2 7" by (simp add: pow2_def)
  then have "ilog2 ?v < 7" using v by (intro ilog2_upper)
  then have "pow2 (ilog2 ?v - 52) \<le> pow2 (- 46)" by (intro pow2_mono) simp
  then have xe: "\<bar>?x - ?v\<bar> \<le> 1 / 2 ^ 47"
    using fl_err [OF v] by (simp add: pow2_def)
  have x0: "0 \<le> ?x" using v by (intro fl_nonneg) simp
  have nx: "\<bar>of_nat ?n / 10 - ?x\<bar> \<le> 1 / 20" using x0 by (rule toFixed1_n_near)
  have nv: "\<bar>of_nat ?n / 10 - ?v\<bar> \<le> 1 / 20 + 1 / 2 ^ 47"
    using xe nx by linarith
  define D :: int where "D = 2 * int T * int ?n - 10 * int A"
  have Dr: "(of_int D :: rat) = 20 * of_nat T * (of_nat ?n / 10 - ?v)"
    using Tr by (simp add: D_def field_simps)
  have "\<bar>of_int D :: rat\<bar> = 20 * of_nat T * \<bar>of_nat ?n / 10 - ?v\<bar>"
    unfolding Dr using Tr by (simp add: abs_mult)
  also have "\<dots> \<le> 20 * of_nat T * (1 / 20 + 1 / 2 ^ 47)"
    using nv Tr by (intro mult_left_mono) simp_all
  also have "\<dots> = of_nat T + 20 * of_nat T / 2 ^ 47"
    by (simp add: algebra_simps)
  also have "\<dots> < of_nat T + 1"
  proof -
    have "(of_nat T :: rat) < of_nat (2 ^ 32)" using T(2) by (simp only: of_nat_less_iff)
    then have "20 * (of_nat T :: rat) < 2 ^ 47" by simp
    then show ?thesis by simp
  qed
  finally have "\<bar>of_int D :: rat\<bar> < of_int (int T + 1)" by simp
  then have "(of_int \<bar>D\<bar> :: rat) < of_int (int T + 1)" by (simp only: of_int_abs)
  then have "\<bar>D\<bar> < int T + 1" by (simp only: of_int_less_iff)
  then have "\<bar>D\<bar> \<le> int T" by simp
  then have "(of_int \<bar>D\<bar> :: rat) \<le> of_int (int T)" by (simp only: of_int_le_iff)
  then have DT: "\<bar>of_int D :: rat\<bar> \<le> of_nat T" by simp
  have "\<bar>of_nat ?n / 10 - ?v\<bar> = \<bar>of_int D :: rat\<bar> / (20 * of_nat T)"
    unfolding Dr using Tr by (simp add: abs_mult)
  also have "\<dots> \<le> of_nat T / (20 * of_nat T)"
    using DT Tr by (intro divide_right_mono) simp_all
  also have "\<dots> = 1 / 20" using Tr by simp
  finally show ?thesis .
qed

lemma digits_nonempty: "digits n \<noteq> []"
  by (subst digits.simps) simp

lemma digits_small: "n < 10 \<Longrightarrow> length (digits n) = 1"
  by (subst digits.simps) simp

lemma toFixed1_render:
  assumes "0 \<le> x"
  shows "toFixed1 x = digits (toFixed1_n x div 10) @ ''.'' @ digits (toFixed1_n x mod 10)"
proof (cases "toFixed1_n x < 10")
  case True
  have d0: "digits 0 = ''0''" by (subst digits.simps) simp
  have l: "length (digits (toFixed1_n x)) = 1" using True by (rule digits_small)
  show ?thesis using assms True l d0 by (simp add: toFixed1_def Let_def)
next
  case False
  let ?n = "toFixed1_n x"
  have e: "digits ?n = digits (?n div 10) @ [''0123456789'' ! (?n mod 10)]"
    using False by (subst digits.simps) simp
  have m: "digits (?n mod 10) = [''0123456789'' ! (?n mod 10)]"
    by (subst digits.simps) simp
  have ne: "digits (?n div 10) \<noteq> []" by (rule digits_nonempty)
  then have l: "\<not> length (digits ?n) \<le> 1" unfolding e by (cases "digits (?n div 10)") simp_all
  have s: "\<not> x < 0" using assms by simp
  show ?thesis
    unfolding toFixed1_def Let_def using l s by (simp add: e m)
qed

lemma uptime_2_1: "toFixed1 (fl (of_nat (199 * 2 + 140 * 1) / 2 / of_nat 3)) = ''89.7''"
  by code_simp

text \<open>
  C1, as stated, fails where the exact quotient is halfway between two tenths. With one
  Healthy line out of ten the quotient is \<open>9.95\<close>; its double is slightly smaller and
  the display is \<open>9.9\<close>, where rounding \<open>9.95\<close> half up or half to even gives
  \<open>10.0\<close>. With one Healthy line out of two the quotient \<open>49.75\<close> is a double and
  the display is \<open>49.8\<close>, where rounding half down gives \<open>49.7\<close>.
\<close>

theorem C1_uptime_counterexample:
  "uptime (report ten_lines) = ''9.9''
   \<and> spec_uptime_exact ten_lines = 995 / 100
   \<and> spec_uptime HalfUp ten_lines = ''10.0''
   \<and> spec_uptime HalfEven ten_lines = ''10.0''
   \<and> uptime (report two_lines) = ''49.8''
   \<and> spec_uptime_exact two_lines = 4975 / 100
   \<and> spec_uptime HalfDown two_lines = ''49.7''"
  by code_simp

text \<open>
  The displayed text against the report's own fields: it is a number of tenths within
  \<open>0.05\<close> of the weighted counts over the total.
\<close>

lemma report_uptime_fields:
  assumes len: "length ls < 2 ^ 32"
  shows "(\<exists>n. uptime (report ls) = digits (n div 10) @ ''.'' @ digits (n mod 10)
            \<and> \<bar>(of_nat n / 10 :: rat)
                - (of_nat (counts (report ls) Healthy) * (995 / 10)
                   + of_nat (counts (report ls) Fault) * 70) / of_nat (total (report ls))\<bar>
                \<le> 1 / 20)
       \<and> (counts (report ls) Healthy = 2 \<and> counts (report ls) Fault = 1
            \<and> counts (report ls) Shutoff = 0 \<longrightarrow> uptime (report ls) = ''89.7'')"
proof -
  let ?c = "count_lines ls"
  define T where "T = (if length ls = 0 then 1 else length ls)"
  let ?A = "199 * ?c Healthy + 140 * ?c Fault"
  let ?v = "of_nat ?A / 2 / of_nat T :: rat"
  have sum: "?c Healthy + ?c Fault + ?c Shutoff = length ls" by (rule count_lines_sum)
  have h: "?c Healthy < 2 ^ 32" and f: "?c Fault < 2 ^ 32" using sum len by linarith+
  have T: "0 < T" "T < 2 ^ 32" using len by (simp_all add: T_def)
  have "?A \<le> 199 * length ls" using sum by linarith
  moreover have "length ls \<le> T" by (simp add: T_def)
  ultimately have A: "?A \<le> 199 * T" by linarith
  have cs: "counts (report ls) = ?c" and tot: "total (report ls) = T"
    by (simp_all add: report_def Let_def T_def)
  have up: "uptime (report ls) = toFixed1 (fl ?v)"
    by (simp add: report_def Let_def T_def uptime_number_eq [OF h f])
  have x0: "0 \<le> fl ?v" by (intro fl_nonneg) simp
  have ex: "(of_nat (?c Healthy) * (995 / 10) + of_nat (?c Fault) * 70) / of_nat T = ?v"
    by (simp add: field_simps)
  have first: "\<exists>n. uptime (report ls) = digits (n div 10) @ ''.'' @ digits (n mod 10)
            \<and> \<bar>(of_nat n / 10 :: rat)
                - (of_nat (counts (report ls) Healthy) * (995 / 10)
                   + of_nat (counts (report ls) Fault) * 70) / of_nat (total (report ls))\<bar>
                \<le> 1 / 20"
  proof (intro exI conjI)
    show "uptime (report ls)
        = digits (toFixed1_n (fl ?v) div 10) @ ''.'' @ digits (toFixed1_n (fl ?v) mod 10)"
      unfolding up by (rule toFixed1_render [OF x0])
    show "\<bar>(of_nat (toFixed1_n (fl ?v)) / 10 :: rat)
                - (of_nat (counts (report ls) Healthy) * (995 / 10)
                   + of_nat (counts (report ls) Fault) * 70) / of_nat (total (report ls))\<bar>
                \<le> 1 / 20"
      unfolding cs tot ex by (rule tenths_near_exact [OF T A])
  qed
  have second: "uptime (report ls) = ''89.7''"
    if c: "counts (report ls) Healthy = 2 \<and> counts (report ls) Fault = 1
            \<and> counts (report ls) Shutoff = 0"
  proof -
    from c have ch: "?c Healthy = 2" and cf: "?c Fault = 1" and cz: "?c Shutoff = 0"
      unfolding cs by simp_all
    have l3: "length ls = 3" using sum ch cf cz by simp
    have "T = 3" using l3 by (simp add: T_def)
    then have ve: "?v = of_nat (199 * 2 + 140 * 1) / 2 / of_nat 3"
      by (simp only: ch cf)
    show ?thesis by (simp only: up ve uptime_2_1)
  qed
  show ?thesis using first second by blast
qed

text \<open>
  C1, amended. For every list \<open>ls\<close> of fewer than \<open>2 ^ 32\<close> lines the displayed uptime
  is a number of tenths \<open>n\<close>, written with one decimal, and \<open>n / 10\<close> is within
  \<open>0.05\<close> of (the number of Healthy lines of \<open>ls\<close> times 99.5 plus the number of its
  Fault lines times 70) over the number of lines (over 1 for an empty list): a nearest
  tenth, Shutoff lines adding nothing to the numerator. For 2 Healthy, 1 Fault and no
  Shutoff line it is \<open>89.7\<close>.
\<close>

theorem C1_uptime_nearest_tenth:
  assumes len: "length ls < 2 ^ 32"
  shows "(\<exists>n. uptime (report ls) = digits (n div 10) @ ''.'' @ digits (n mod 10)
            \<and> \<bar>(of_nat n / 10 :: rat)
                - (of_nat (length (filter (\<lambda>l. status l = Healthy) ls)) * (995 / 10)
                   + of_nat (length (filter (\<lambda>l. status l = Fault) ls)) * 70)
                  / of_nat (if ls = [] then 1 else length ls)\<bar>
                \<le> 1 / 20)
       \<and> (length (filter (\<lambda>l. status l = Healthy) ls) = 2
            \<and> length (filter (\<lambda>l. status l = Fault) ls) = 1
            \<and> length (filter (\<lambda>l. status l = Shutoff) ls) = 0
            \<longrightarrow> uptime (report ls) = ''89.7'')"
proof -
  have cH: "counts (report ls) Healthy = length (filter (\<lambda>l. status l = Healthy) ls)"
    by (simp add: report_def Let_def count_lines_filter)
  have cF: "counts (report ls) Fault = length (filter (\<lambda>l. status l = Fault) ls)"
    by (simp add: report_def Let_def count_lines_filter)
  have cS: "counts (report ls) Shutoff = length (filter (\<lambda>l. status l = Shutoff) ls)"
    by (simp add: report_def Let_def count_lines_filter)
  have tot: "total (report ls) = (if ls = [] then 1 else length ls)"
    by (simp add: report_def Let_def)
  from report_uptime_fields [OF len] show ?thesis
    unfolding cH cF cS tot .
qed

theorem C1_uptime_nearest_tenth_witness:
  "length (lines (updateLineStatus ''n1'' 7 ''lt-3'' Fault initialDashboard)) < 2 ^ 32
   \<and> map status (lines (updateLineStatus ''n1'' 7 ''lt-3'' Fault initialDashboard))
       = [Healthy, Healthy, Fault]
   \<and> uptime (report (lines (updateLineStatus ''n1'' 7 ''lt-3'' Fault initialDashboard))) = ''89.7''
   \<and> length ten_lines < 2 ^ 32
   \<and> map status ten_lines
       = [Healthy, Shutoff, Shutoff, Shutoff, Shutoff, Shutoff, Shutoff, Shutoff, Shutoff, Shutoff]
   \<and> (\<exists>n. uptime (report ten_lines) = digits (n div 10) @ ''.'' @ digits (n mod 10)
          \<and> \<bar>(of_nat n / 10 :: rat) - 995 / 100\<bar> \<le> 1 / 20)"
proof -
  let ?ls = "lines (updateLineStatus ''n1'' 7 ''lt-3'' Fault initialDashboard)"
  have e: "?ls = setLines_status ''lt-3'' Fault initialLines"
    by (simp add: lines_updateLineStatus initialDashboard_def)
  have l: "length ?ls < 2 ^ 32"
    by (simp add: e setLines_status_def initialLines_def)
  have m: "map status ?ls = [Healthy, Healthy, Fault]"
    by (simp add: e setLines_status_def initialLines_def)
  have c: "length (filter (\<lambda>l. status l = Healthy) ?ls) = 2
         \<and> length (filter (\<lambda>l. status l = Fault) ?ls) = 1
         \<and> length (filter (\<lambda>l. status l = Shutoff) ?ls) = 0"
    by (simp add: e setLines_status_def initialLines_def)
  have u: "uptime (report ?ls) = ''89.7''"
    by (rule mp [OF conjunct2 [OF C1_uptime_nearest_tenth [OF l]] c])
  have tl: "length ten_lines < 2 ^ 32"
    by (simp add: ten_lines_def)
  have tm: "map status ten_lines
       = [Healthy, Shutoff, Shutoff, Shutoff, Shutoff, Shutoff, Shutoff, Shutoff, Shutoff, Shutoff]"
    by code_simp
  have tH: "length (filter (\<lambda>l. status l = Healthy) ten_lines) = 1"
    by code_simp
  have tF: "length (filter (\<lambda>l. status l = Fault) ten_lines) = 0"
    by code_simp
  have tn: "length ten_lines = 10"
    by (simp add: ten_lines_def)
  have tne: "ten_lines \<noteq> []"
    by (simp add: ten_lines_def)
  have t: "\<exists>n. uptime (report ten_lines) = digits (n div 10) @ ''.'' @ digits (n mod 10)
          \<and> \<bar>(of_nat n / 10 :: rat) - 995 / 100\<bar> \<le> 1 / 20"
    using conjunct1 [OF C1_uptime_nearest_tenth [OF tl]] by (simp add: tH tF tn tne)
  show ?thesis
    by (intro conjI l m u tl tm t)
qed

section \<open>Fault simulator: properties\<close>


lemma pick_candidate_mem:
  assumes "pick_candidate r cands = Some pick"
  shows "pick \<in> set cands"
proof -
  let ?k = "\<lfloor>js_mul r (of_nat (length cands))\<rfloor>"
  from assms have k: "0 \<le> ?k" "?k < int (length cands)" and p: "pick = cands ! nat ?k"
    by (auto simp: pick_candidate_def Let_def split: if_splits)
  from k have "nat ?k < length cands" by linarith
  then show ?thesis using p by simp
qed

lemma pick_candidate_Nil: "pick_candidate r [] = None"
  by (simp add: pick_candidate_def)

lemma pick_candidate_total:
  assumes r0: "0 \<le> r" and r1: "r \<le> 1 - 1 / 2 ^ 53" and ne: "cands \<noteq> []"
  shows "\<exists>pick. pick_candidate r cands = Some pick"
proof -
  let ?n = "length cands"
  let ?x = "r * of_nat ?n"
  have n: "0 < ?n" using ne by simp
  have lo: "0 \<le> ?x" using r0 by simp
  have "of_nat ?n * r \<le> of_nat ?n * (1 - 1 / 2 ^ 53)"
    by (rule mult_left_mono [OF r1]) simp
  then have hi: "?x \<le> of_nat ?n * (1 - 1 / 2 ^ 53)"
    unfolding mult.commute [of r "of_nat ?n"] .
  have f0: "0 \<le> fl ?x" using lo by (rule fl_nonneg)
  have f1: "fl ?x < of_nat ?n" using lo hi n by (rule fl_below)
  have k0: "0 \<le> \<lfloor>fl ?x\<rfloor>" using f0 by simp
  have k1: "\<lfloor>fl ?x\<rfloor> < int ?n" using f1 by (simp add: floor_less_iff)
  show ?thesis using k0 k1 by (simp add: pick_candidate_def Let_def js_mul_def)
qed

lemma setLines_status_same:
  "i < length ls \<Longrightarrow> status (ls ! i) = st \<Longrightarrow> setLines_status lid st ls ! i = ls ! i"
  by (simp add: setLines_status_def)

lemma simulateFault_all_fault:
  "\<forall>l \<in> set (lines s). status l = Fault \<Longrightarrow> simulateFault r nid t s = s"
proof -
  assume a: "\<forall>l \<in> set (lines s). status l = Fault"
  have "filter (\<lambda>l. status l \<noteq> Fault) (lines s) = []"
    using a by (simp add: filter_empty_conv)
  then show ?thesis by (simp add: simulateFault_def pick_candidate_Nil)
qed

lemma simulateFault_keeps_fault:
  "i < length (lines s) \<Longrightarrow> status (lines s ! i) = Fault \<Longrightarrow>
   lines (simulateFault r nid t s) ! i = lines s ! i"
  by (simp add: simulateFault_def Let_def lines_updateLineStatus setLines_status_same
           split: option.splits)

text \<open>
  C2. \<open>simulateFault\<close> changes nothing (no line, no notification) when every line is
  in Fault status. When it picks a line, the pick is a line of the registry whose status
  is not Fault, and the effect is \<open>updateLineStatus\<close> on the pick's identifier with
  Fault; with a random number in \<open>[0, 1)\<close> (a double, so at most \<open>1 - 2 ^ -53\<close>)
  and at least one line not in Fault status it does pick one. A line already in Fault status is left exactly as it is.
\<close>

theorem C2_simulateFault:
  "((\<forall>l \<in> set (lines s). status l = Fault) \<longrightarrow> simulateFault r nid t s = s)
   \<and> (\<forall>pick. pick_candidate r (filter (\<lambda>l. status l \<noteq> Fault) (lines s)) = Some pick \<longrightarrow>
         pick \<in> set (lines s) \<and> status pick \<noteq> Fault
         \<and> simulateFault r nid t s = updateLineStatus nid t (id_l pick) Fault s)
   \<and> (0 \<le> r \<and> r \<le> 1 - 1 / 2 ^ 53 \<and> (\<exists>l \<in> set (lines s). status l \<noteq> Fault) \<longrightarrow>
         (\<exists>pick. pick_candidate r (filter (\<lambda>l. status l \<noteq> Fault) (lines s)) = Some pick))
   \<and> (\<forall>i < length (lines s). status (lines s ! i) = Fault \<longrightarrow>
         lines (simulateFault r nid t s) ! i = lines s ! i)"
proof (intro conjI allI impI)
  assume "\<forall>l \<in> set (lines s). status l = Fault"
  then show "simulateFault r nid t s = s" by (rule simulateFault_all_fault)
next
  fix pick
  assume p: "pick_candidate r (filter (\<lambda>l. status l \<noteq> Fault) (lines s)) = Some pick"
  from pick_candidate_mem [OF p] show "pick \<in> set (lines s)" by simp
next
  fix pick
  assume p: "pick_candidate r (filter (\<lambda>l. status l \<noteq> Fault) (lines s)) = Some pick"
  from pick_candidate_mem [OF p] show "status pick \<noteq> Fault" by simp
next
  fix pick
  assume p: "pick_candidate r (filter (\<lambda>l. status l \<noteq> Fault) (lines s)) = Some pick"
  then show "simulateFault r nid t s = updateLineStatus nid t (id_l pick) Fault s"
    by (simp add: simulateFault_def)
next
  assume a: "0 \<le> r \<and> r \<le> 1 - 1 / 2 ^ 53 \<and> (\<exists>l \<in> set (lines s). status l \<noteq> Fault)"
  then have "filter (\<lambda>l. status l \<noteq> Fault) (lines s) \<noteq> []"
    by (simp add: filter_empty_conv)
  with a show "\<exists>pick. pick_candidate r (filter (\<lambda>l. status l \<noteq> Fault) (lines s)) = Some pick"
    by (simp add: pick_candidate_total)
next
  fix i
  assume "i < length (lines s)" "status (lines s ! i) = Fault"
  then show "lines (simulateFault r nid t s) ! i = lines s ! i"
    by (rule simulateFault_keeps_fault)
qed

theorem C2_simulateFault_witness:
  "map status (lines \<lparr>lines = [\<lparr>id_l = ''lt-1'', name = ''A'', coords = [(1, 2)], status = Fault\<rparr>],
                      notifications = []\<rparr>) = [Fault]
   \<and> simulateFault (1 / 2) ''n1'' 5
        \<lparr>lines = [\<lparr>id_l = ''lt-1'', name = ''A'', coords = [(1, 2)], status = Fault\<rparr>],
         notifications = []\<rparr>
      = \<lparr>lines = [\<lparr>id_l = ''lt-1'', name = ''A'', coords = [(1, 2)], status = Fault\<rparr>],
         notifications = []\<rparr>
   \<and> pick_candidate (3 / 4) (filter (\<lambda>l. status l \<noteq> Fault) (lines initialDashboard))
      = Some (initialLines ! 2)
   \<and> (0::rat) \<le> 3 / 4 \<and> (3 / 4 :: rat) \<le> 1 - 1 / 2 ^ 53
   \<and> map status (lines initialDashboard) = [Healthy, Healthy, Shutoff]
   \<and> simulateFault (3 / 4) ''n1'' 5 initialDashboard
      = updateLineStatus ''n1'' 5 ''lt-3'' Fault initialDashboard"
proof -
  let ?f = "\<lparr>lines = [\<lparr>id_l = ''lt-1'', name = ''A'', coords = [(1, 2)], status = Fault\<rparr>],
            notifications = []\<rparr>"
  have a: "\<forall>l \<in> set (lines ?f). status l = Fault"
    by simp
  have c: "filter (\<lambda>l. status l \<noteq> Fault) (lines initialDashboard) = initialLines"
    by (simp add: initialDashboard_def initialLines_def)
  have n: "length initialLines = 3"
    by (simp add: initialLines_def)
  have m: "js_mul (3 / 4) 3 = 9 / 4"
    by code_simp
  have k: "\<lfloor>9 / 4 :: rat\<rfloor> = 2"
    by (simp add: floor_eq_iff)
  have p: "pick_candidate (3 / 4) (filter (\<lambda>l. status l \<noteq> Fault) (lines initialDashboard))
      = Some (initialLines ! 2)"
    by (simp add: c pick_candidate_def n m k)
  have e: "\<exists>l \<in> set (lines initialDashboard). status l \<noteq> Fault"
    by (simp add: initialDashboard_def initialLines_def)
  have i: "id_l (initialLines ! 2) = ''lt-3''"
    by (simp add: initialLines_def)
  have r: "(0::rat) \<le> 3 / 4 \<and> (3 / 4 :: rat) \<le> 1 - 1 / 2 ^ 53"
    by simp
  have f1: "simulateFault (1 / 2) ''n1'' 5 ?f = ?f"
    by (rule mp [OF conjunct1 [OF C2_simulateFault] a])
  have "simulateFault (3 / 4) ''n1'' 5 initialDashboard
      = updateLineStatus ''n1'' 5 (id_l (initialLines ! 2)) Fault initialDashboard"
    using C2_simulateFault [of initialDashboard "3 / 4" "''n1''" 5] p by blast
  then have f2: "simulateFault (3 / 4) ''n1'' 5 initialDashboard
      = updateLineStatus ''n1'' 5 ''lt-3'' Fault initialDashboard"
    by (simp only: i)
  have m1: "map status (lines ?f) = [Fault]"
    by simp
  have m2: "map status (lines initialDashboard) = [Healthy, Healthy, Shutoff]"
    by (simp add: initialDashboard_def initialLines_def)
  show ?thesis
    by (intro conjI m1 f1 p m2 f2 conjunct1 [OF r] conjunct2 [OF r])
qed

end
